theory Spec2Isabelle
  imports Main
begin

section \<open>The pySlipQt widget: key tile bookkeeping and tile lists\<close>

text \<open>
  A shallow embedding of \<^verbatim>\<open>pyslipqt/pyslipqt.py\<close>: the state of a
  \<^verbatim>\<open>PySlipQt\<close> widget, \<^verbatim>\<open>normalize_view\<close> (the pan),
  \<^verbatim>\<open>zoom_level\<close> and the two loops of \<^verbatim>\<open>paintEvent\<close> that build
  \<^verbatim>\<open>col_list\<close> and \<^verbatim>\<open>row_list\<close>.

  Python integers are unbounded, so they are \<^typ>\<open>int\<close>; Python's \<^verbatim>\<open>%\<close> takes the
  sign of the divisor, as \<open>mod\<close> on \<^typ>\<open>int\<close> does, but raises on a zero divisor
  where HOL returns the dividend, so the zero divisor is a branch of its own.
  A method that mutates the widget returns the widget, a method that may raise returns a
  sum, and a loop that may run forever returns an option, \<open>None\<close> meaning that the loop
  never ends.
\<close>

subsection \<open>Data\<close>

datatype error = AttributeError | ZeroDivisionError | ValueError

text \<open>
  The tile source is an object of another module. The widget reads these attributes of
  it; its methods \<^verbatim>\<open>UseLevel\<close> and \<^verbatim>\<open>GetInfo\<close> are parameters of
  \<open>zoom_level\<close> below. The attributes \<^verbatim>\<open>tile_size_x\<close> and \<^verbatim>\<open>tile_size_y\<close>
  of the source carry the prefix \<open>src_\<close>, as the widget has attributes of the same name.
\<close>

record tile_source =
  levels :: "int list"
  src_tile_size_x :: int
  src_tile_size_y :: int
  wrap_x :: bool
  wrap_y :: bool

text \<open>
  The attributes of the widget, in the order \<^verbatim>\<open>__init__\<close> sets them.
  \<^verbatim>\<open>num_tiles_x\<close> and \<^verbatim>\<open>num_tiles_y\<close> are not set by \<^verbatim>\<open>__init__\<close>:
  they exist only after a successful \<^verbatim>\<open>zoom_level\<close>, so they are options and reading
  \<open>None\<close> is Python's \<^verbatim>\<open>AttributeError\<close>. \<open>update_calls\<close> counts the calls of
  \<^verbatim>\<open>self.update()\<close>, the repaint requests.
\<close>

record PySlipQt =
  tile_src :: tile_source
  level :: int
  view_offset_x :: int
  view_offset_y :: int
  view_width :: int
  view_height :: int
  max_level :: int
  min_level :: int
  tile_size_x :: int
  tile_size_y :: int
  key_tile_left :: int
  key_tile_top :: int
  key_tile_xoffset :: int
  key_tile_yoffset :: int
  left_mbutton_down :: bool
  mid_mbutton_down :: bool
  right_mbutton_down :: bool
  start_drag_x :: "int option"
  start_drag_y :: "int option"
  num_tiles_x :: "int option"
  num_tiles_y :: "int option"
  update_calls :: nat

text \<open>
  \<^verbatim>\<open>__init__(self, parent, tile_src, start_level=0)\<close>. \<^verbatim>\<open>max\<close> and \<^verbatim>\<open>min\<close> of
  an empty collection raise \<^verbatim>\<open>ValueError\<close>; \<open>attributes\<close> is the widget that the
  assignments of \<^verbatim>\<open>__init__\<close> build when they do not.
\<close>

definition attributes :: "tile_source \<Rightarrow> int \<Rightarrow> PySlipQt" where
  "attributes src start_level =
     \<lparr> tile_src = src,
       level = start_level,
       view_offset_x = 0,
       view_offset_y = 0,
       view_width = 0,
       view_height = 0,
       max_level = Max (set (levels src)),
       min_level = Min (set (levels src)),
       tile_size_x = src_tile_size_x src,
       tile_size_y = src_tile_size_y src,
       key_tile_left = 0,
       key_tile_top = 0,
       key_tile_xoffset = 0,
       key_tile_yoffset = 0,
       left_mbutton_down = False,
       mid_mbutton_down = False,
       right_mbutton_down = False,
       start_drag_x = None,
       start_drag_y = None,
       num_tiles_x = None,
       num_tiles_y = None,
       update_calls = 0 \<rparr>"

definition init :: "tile_source \<Rightarrow> int \<Rightarrow> error + PySlipQt" where
  "init src start_level =
     (if levels src = [] then Inl ValueError else Inr (attributes src start_level))"

subsection \<open>normalize_view\<close>

text \<open>
  The X block and the Y block of \<^verbatim>\<open>normalize_view\<close> are the same two loops on
  different attributes, so each loop is one function of the tile size, the tile count, the
  key tile offset and the key tile coordinate.

  \<^verbatim>\<open>
  while self.key_tile_xoffset > 0:
      self.key_tile_xoffset -= self.tile_size_x
      self.key_tile_left += 1
      self.key_tile_left %= self.num_tiles_x
  \<close>
  The last line reads \<^verbatim>\<open>num_tiles_x\<close> and divides by it; when it raises, the two
  lines before it have already changed the widget, so the error carries the offset and
  the coordinate as they are left.
\<close>

partial_function (option) while_offset_positive ::
  "int \<Rightarrow> int option \<Rightarrow> int \<Rightarrow> int \<Rightarrow> (error \<times> int \<times> int + int \<times> int) option" where
  "while_offset_positive ts n off c =
     (if off > 0 then
        (if n = None then Some (Inl (AttributeError, off - ts, c + 1))
         else if the n = 0 then Some (Inl (ZeroDivisionError, off - ts, c + 1))
         else while_offset_positive ts n (off - ts) ((c + 1) mod the n))
      else Some (Inr (off, c)))"

text \<open>
  \<^verbatim>\<open>
  while self.key_tile_xoffset <= -self.tile_size_x:
      self.key_tile_xoffset += self.tile_size_x
      self.key_tile_left -= 1
      self.key_tile_left = ((self.key_tile_left + self.num_tiles_x)
                               % self.num_tiles_x)
  \<close>
\<close>

partial_function (option) while_offset_low ::
  "int \<Rightarrow> int option \<Rightarrow> int \<Rightarrow> int \<Rightarrow> (error \<times> int \<times> int + int \<times> int) option" where
  "while_offset_low ts n off c =
     (if off \<le> - ts then
        (if n = None then Some (Inl (AttributeError, off + ts, c - 1))
         else if the n = 0 then Some (Inl (ZeroDivisionError, off + ts, c - 1))
         else while_offset_low ts n (off + ts) ((c - 1 + the n) mod the n))
      else Some (Inr (off, c)))"

text \<open>The two loops, one after the other, as both blocks have them.\<close>

definition normalize_axis ::
  "int \<Rightarrow> int option \<Rightarrow> int \<Rightarrow> int \<Rightarrow> (error \<times> int \<times> int + int \<times> int) option" where
  "normalize_axis ts n off c =
     (case while_offset_positive ts n off c of
        None \<Rightarrow> None
      | Some (Inl e) \<Rightarrow> Some (Inl e)
      | Some (Inr (off1, c1)) \<Rightarrow> while_offset_low ts n off1 c1)"

text \<open>
  The block \<^verbatim>\<open>if delta_x:\<close>. \<^verbatim>\<open>None\<close> and \<^verbatim>\<open>0\<close> are both false in Python.
  On a source that does not wrap the block is \<^verbatim>\<open>pass\<close>. An error is returned with
  the widget as the block left it.
\<close>

definition normalize_x :: "int option \<Rightarrow> PySlipQt \<Rightarrow> (error \<times> PySlipQt + PySlipQt) option" where
  "normalize_x delta_x w =
     (case delta_x of
        None \<Rightarrow> Some (Inr w)
      | Some d \<Rightarrow>
          if d = 0 then Some (Inr w)
          else if wrap_x (tile_src w) then
            (case normalize_axis (tile_size_x w) (num_tiles_x w)
                    (key_tile_xoffset w - d) (key_tile_left w) of
               None \<Rightarrow> None
             | Some (Inl (e, off, c)) \<Rightarrow>
                 Some (Inl (e, w\<lparr>key_tile_xoffset := off, key_tile_left := c\<rparr>))
             | Some (Inr (off, c)) \<Rightarrow>
                 Some (Inr (w\<lparr>key_tile_xoffset := off, key_tile_left := c\<rparr>)))
          else Some (Inr w))"

text \<open>The block \<^verbatim>\<open>if delta_y:\<close>.\<close>

definition normalize_y :: "int option \<Rightarrow> PySlipQt \<Rightarrow> (error \<times> PySlipQt + PySlipQt) option" where
  "normalize_y delta_y w =
     (case delta_y of
        None \<Rightarrow> Some (Inr w)
      | Some d \<Rightarrow>
          if d = 0 then Some (Inr w)
          else if wrap_y (tile_src w) then
            (case normalize_axis (tile_size_y w) (num_tiles_y w)
                    (key_tile_yoffset w - d) (key_tile_top w) of
               None \<Rightarrow> None
             | Some (Inl (e, off, c)) \<Rightarrow>
                 Some (Inl (e, w\<lparr>key_tile_yoffset := off, key_tile_top := c\<rparr>))
             | Some (Inr (off, c)) \<Rightarrow>
                 Some (Inr (w\<lparr>key_tile_yoffset := off, key_tile_top := c\<rparr>)))
          else Some (Inr w))"

text \<open>
  \<^verbatim>\<open>normalize_view(self, delta_x=None, delta_y=None)\<close>: the X block, then the Y
  block. \<open>Some (Inr w')\<close> is a return with the widget now \<open>w'\<close>, \<open>Some (Inl (e, w'))\<close> is
  the exception \<open>e\<close> with the widget left as \<open>w'\<close>, and \<open>None\<close> is a loop that never ends.
\<close>

definition normalize_view ::
  "int option \<Rightarrow> int option \<Rightarrow> PySlipQt \<Rightarrow> (error \<times> PySlipQt + PySlipQt) option" where
  "normalize_view delta_x delta_y w =
     (case normalize_x delta_x w of
        None \<Rightarrow> None
      | Some (Inl e) \<Rightarrow> Some (Inl e)
      | Some (Inr w1) \<Rightarrow> normalize_y delta_y w1)"

text \<open>The widget a call leaves behind, whether it returned or raised.\<close>

fun widget_after :: "error \<times> PySlipQt + PySlipQt \<Rightarrow> PySlipQt" where
  "widget_after (Inl (e, w)) = w"
| "widget_after (Inr w) = w"

subsection \<open>paintEvent: the column list and the row list\<close>

text \<open>
  \<^verbatim>\<open>
  col_list = []
  x_coord = self.key_tile_left
  x_pix_start = self.key_tile_xoffset
  while x_pix_start < self.view_width:
      col_list.append(x_coord)
      if not self.tile_src.wrap_x and x_coord >= self.num_tiles_x-1:
          break
      x_coord = (x_coord + 1) % self.num_tiles_x
      x_pix_start += self.tile_src.tile_size_x
  \<close>
  The loop for the rows is the same on the Y attributes, so the loop is one function of
  the wrap flag, the tile count, the tile size of the source, the view size, the pixel
  position, the tile coordinate and the list so far. The loop tests its condition before
  the first pass. Whether the source wraps or not, a pass of the body reads
  \<^verbatim>\<open>num_tiles_x\<close>; the division is reached only when the \<^verbatim>\<open>break\<close> is not taken.
\<close>

partial_function (option) tile_list_loop ::
  "bool \<Rightarrow> int option \<Rightarrow> int \<Rightarrow> int \<Rightarrow> int \<Rightarrow> int \<Rightarrow> int list \<Rightarrow> (error + int list) option" where
  "tile_list_loop wrap n ts view pix coord acc =
     (if pix < view then
        (if n = None then Some (Inl AttributeError)
         else if \<not> wrap \<and> coord \<ge> the n - 1 then Some (Inr (acc @ [coord]))
         else if the n = 0 then Some (Inl ZeroDivisionError)
         else tile_list_loop wrap n ts view (pix + ts) ((coord + 1) mod the n) (acc @ [coord]))
      else Some (Inr acc))"

definition col_list :: "PySlipQt \<Rightarrow> (error + int list) option" where
  "col_list w =
     tile_list_loop (wrap_x (tile_src w)) (num_tiles_x w) (src_tile_size_x (tile_src w))
       (view_width w) (key_tile_xoffset w) (key_tile_left w) []"

definition row_list :: "PySlipQt \<Rightarrow> (error + int list) option" where
  "row_list w =
     tile_list_loop (wrap_y (tile_src w)) (num_tiles_y w) (src_tile_size_y (tile_src w))
       (view_height w) (key_tile_yoffset w) (key_tile_top w) []"

subsection \<open>zoom_level\<close>

text \<open>
  \<^verbatim>\<open>
  result = self.tile_src.UseLevel(level)
  if result:
      self.level = level
      (self.num_tiles_x, self.num_tiles_y, _, _) = self.tile_src.GetInfo(level)
      self.update()
  return result
  \<close>
  \<^verbatim>\<open>UseLevel\<close> and \<^verbatim>\<open>GetInfo\<close> are methods of the tile source, which is not part
  of this module: they are parameters. \<^verbatim>\<open>UseLevel\<close> may change the tile source, so it
  returns the source as it leaves it; \<^verbatim>\<open>GetInfo\<close> returns four values of which the
  widget keeps two.
\<close>

definition zoom_level ::
  "(tile_source \<Rightarrow> int \<Rightarrow> bool \<times> tile_source) \<Rightarrow> (tile_source \<Rightarrow> int \<Rightarrow> int \<times> int \<times> 'a \<times> 'b)
     \<Rightarrow> int \<Rightarrow> PySlipQt \<Rightarrow> bool \<times> PySlipQt" where
  "zoom_level UseLevel GetInfo lvl w =
     (let (result, src') = UseLevel (tile_src w) lvl;
          w1 = w\<lparr>tile_src := src'\<rparr>
      in if result then
           (let (nx, ny, _, _) = GetInfo src' lvl
            in (result, w1\<lparr>level := lvl, num_tiles_x := Some nx, num_tiles_y := Some ny,
                             update_calls := update_calls w1 + 1\<rparr>))
         else (result, w1))"

text \<open>\<^verbatim>\<open>use_level\<close> returns what \<^verbatim>\<open>zoom_level\<close> returns.\<close>

definition use_level ::
  "(tile_source \<Rightarrow> int \<Rightarrow> bool \<times> tile_source) \<Rightarrow> (tile_source \<Rightarrow> int \<Rightarrow> int \<times> int \<times> 'a \<times> 'b)
     \<Rightarrow> int \<Rightarrow> PySlipQt \<Rightarrow> bool \<times> PySlipQt" where
  "use_level UseLevel GetInfo lvl w = zoom_level UseLevel GetInfo lvl w"

subsection \<open>resizeEvent\<close>

text \<open>
  \<^verbatim>\<open>resizeEvent\<close> stores the new size of the widget; \<^verbatim>\<open>recalc_wrap\<close>, which it
  calls next, is \<^verbatim>\<open>pass\<close>. The size is what Qt reports, a parameter here.
\<close>

definition resizeEvent :: "int \<Rightarrow> int \<Rightarrow> PySlipQt \<Rightarrow> PySlipQt" where
  "resizeEvent width height w = w\<lparr>view_width := width, view_height := height\<rparr>"

subsection \<open>The normalized key tile\<close>

text \<open>
  An axis is normalized when the tile size and the tile count are at least one, the key
  tile offset lies in the half-open interval from minus the tile size to zero, and the key
  tile coordinate is a valid tile coordinate.
\<close>

definition axis_normalized :: "int \<Rightarrow> int option \<Rightarrow> int \<Rightarrow> int \<Rightarrow> bool" where
  "axis_normalized ts n off c =
     (case n of
        None \<Rightarrow> False
      | Some m \<Rightarrow> 1 \<le> ts \<and> 1 \<le> m \<and> - ts < off \<and> off \<le> 0 \<and> 0 \<le> c \<and> c < m)"

definition x_normalized :: "PySlipQt \<Rightarrow> bool" where
  "x_normalized w =
     axis_normalized (tile_size_x w) (num_tiles_x w) (key_tile_xoffset w) (key_tile_left w)"

definition y_normalized :: "PySlipQt \<Rightarrow> bool" where
  "y_normalized w =
     axis_normalized (tile_size_y w) (num_tiles_y w) (key_tile_yoffset w) (key_tile_top w)"

text \<open>The invariant of the widget: every axis that wraps is normalized.\<close>

definition key_tile_normalized :: "PySlipQt \<Rightarrow> bool" where
  "key_tile_normalized w =
     ((wrap_x (tile_src w) \<longrightarrow> x_normalized w) \<and> (wrap_y (tile_src w) \<longrightarrow> y_normalized w))"

subsection \<open>Example widgets\<close>

text \<open>
  A source of 256 pixel tiles that wraps on both axes, and one that wraps on neither; a
  \<^verbatim>\<open>UseLevel\<close> that accepts every level and one that rejects every level, both leaving
  the source as it is; a \<^verbatim>\<open>GetInfo\<close> that reports four by four tiles.
\<close>

definition wrapping_source :: tile_source where
  "wrapping_source =
     \<lparr> levels = [0, 1, 2], src_tile_size_x = 256, src_tile_size_y = 256,
       wrap_x = True, wrap_y = True \<rparr>"

definition bounded_source :: tile_source where
  "bounded_source =
     \<lparr> levels = [0, 1, 2], src_tile_size_x = 256, src_tile_size_y = 256,
       wrap_x = False, wrap_y = False \<rparr>"

definition accept_level :: "tile_source \<Rightarrow> int \<Rightarrow> bool \<times> tile_source" where
  "accept_level src lvl = (True, src)"

definition reject_level :: "tile_source \<Rightarrow> int \<Rightarrow> bool \<times> tile_source" where
  "reject_level src lvl = (False, src)"

definition four_by_four :: "tile_source \<Rightarrow> int \<Rightarrow> int \<times> int \<times> unit \<times> unit" where
  "four_by_four src lvl = (4, 4, (), ())"

text \<open>
  The widget that \<^verbatim>\<open>__init__\<close> builds on a source at level 0, and the widget after
  \<^verbatim>\<open>zoom_level(0)\<close> has succeeded on it with four by four tiles.
\<close>

definition fresh_widget :: "tile_source \<Rightarrow> PySlipQt" where
  "fresh_widget src = attributes src 0"

definition grid_widget :: "tile_source \<Rightarrow> PySlipQt" where
  "grid_widget src = snd (zoom_level accept_level four_by_four 0 (fresh_widget src))"

section \<open>Properties\<close>

subsection \<open>One pass of a loop of normalize_view\<close>

lemma wop_exit: "\<not> 0 < off \<Longrightarrow> while_offset_positive ts n off c = Some (Inr (off, c))"
  by (subst while_offset_positive.simps) simp

lemma wop_unset: "0 < off \<Longrightarrow>
  while_offset_positive ts None off c = Some (Inl (AttributeError, off - ts, c + 1))"
  by (subst while_offset_positive.simps) simp

lemma wop_zero: "0 < off \<Longrightarrow>
  while_offset_positive ts (Some 0) off c = Some (Inl (ZeroDivisionError, off - ts, c + 1))"
  by (subst while_offset_positive.simps) simp

lemma wop_step: "0 < off \<Longrightarrow> m \<noteq> 0 \<Longrightarrow>
  while_offset_positive ts (Some m) off c
    = while_offset_positive ts (Some m) (off - ts) ((c + 1) mod m)"
  by (subst while_offset_positive.simps) simp

lemma wol_exit: "\<not> off \<le> - ts \<Longrightarrow> while_offset_low ts n off c = Some (Inr (off, c))"
  by (subst while_offset_low.simps) simp

lemma wol_unset: "off \<le> - ts \<Longrightarrow>
  while_offset_low ts None off c = Some (Inl (AttributeError, off + ts, c - 1))"
  by (subst while_offset_low.simps) simp

lemma wol_zero: "off \<le> - ts \<Longrightarrow>
  while_offset_low ts (Some 0) off c = Some (Inl (ZeroDivisionError, off + ts, c - 1))"
  by (subst while_offset_low.simps) simp

lemma wol_step: "off \<le> - ts \<Longrightarrow> m \<noteq> 0 \<Longrightarrow>
  while_offset_low ts (Some m) off c
    = while_offset_low ts (Some m) (off + ts) ((c - 1 + m) mod m)"
  by (subst while_offset_low.simps) simp

text \<open>
  With a tile size of at least one and a tile count other than zero, the first loop started
  above zero makes some \<open>k\<close> passes, each moving the offset down by the tile size and the
  coordinate up by one, and stops with the offset in the interval.
\<close>

lemma wop_runs:
  assumes "1 \<le> ts" "m \<noteq> 0" "0 < off"
  shows "\<exists>k. 0 < k \<and> - ts < off - k * ts \<and> off - k * ts \<le> 0 \<and>
           while_offset_positive ts (Some m) off c = Some (Inr (off - k * ts, (c + k) mod m))"
  using assms(3)
proof (induction "nat off" arbitrary: off c rule: less_induct)
  case less
  show ?case
  proof (cases "0 < off - ts")
    case True
    have "nat (off - ts) < nat off" using True assms(1) by simp
    from less.hyps[OF this True, of "(c + 1) mod m"]
    obtain k where k: "0 < k" "- ts < off - ts - k * ts" "off - ts - k * ts \<le> 0"
      "while_offset_positive ts (Some m) (off - ts) ((c + 1) mod m)
         = Some (Inr (off - ts - k * ts, ((c + 1) mod m + k) mod m))"
      by blast
    have e1: "off - ts - k * ts = off - (k + 1) * ts" by (simp add: algebra_simps)
    have "((c + 1) mod m + k) mod m = (c + 1 + k) mod m"
      by (simp only: mod_add_left_eq)
    also have "c + 1 + k = c + (k + 1)" by simp
    finally have e2: "((c + 1) mod m + k) mod m = (c + (k + 1)) mod m" .
    show ?thesis
      apply (rule exI[of _ "k + 1"])
      using k less.prems assms(2) unfolding e1 e2
      by (simp add: wop_step)
  next
    case False
    show ?thesis
      apply (rule exI[of _ 1])
      using False less.prems assms
      by (simp add: wop_step wop_exit)
  qed
qed

lemma wol_runs:
  assumes "1 \<le> ts" "m \<noteq> 0" "off \<le> - ts"
  shows "\<exists>k. 0 < k \<and> - ts < off + k * ts \<and> off + k * ts \<le> 0 \<and>
           while_offset_low ts (Some m) off c = Some (Inr (off + k * ts, (c - k) mod m))"
  using assms(3)
proof (induction "nat (- off)" arbitrary: off c rule: less_induct)
  case less
  show ?case
  proof (cases "off + ts \<le> - ts")
    case True
    have "nat (- (off + ts)) < nat (- off)" using True assms(1) by simp
    from less.hyps[OF this True, of "(c - 1 + m) mod m"]
    obtain k where k: "0 < k" "- ts < off + ts + k * ts" "off + ts + k * ts \<le> 0"
      "while_offset_low ts (Some m) (off + ts) ((c - 1 + m) mod m)
         = Some (Inr (off + ts + k * ts, ((c - 1 + m) mod m - k) mod m))"
      by blast
    have e1: "off + ts + k * ts = off + (k + 1) * ts" by (simp add: algebra_simps)
    have "((c - 1 + m) mod m - k) mod m = (c - 1 + m - k) mod m"
      by (simp only: mod_diff_left_eq)
    also have "c - 1 + m - k = c - (k + 1) + m" by simp
    also have "(c - (k + 1) + m) mod m = (c - (k + 1)) mod m" by (rule mod_add_self2)
    finally have e2: "((c - 1 + m) mod m - k) mod m = (c - (k + 1)) mod m" .
    show ?thesis
      apply (rule exI[of _ "k + 1"])
      using k less.prems assms(2) unfolding e1 e2
      by (simp add: wol_step)
  next
    case False
    show ?thesis
      apply (rule exI[of _ 1])
      using False less.prems assms
      by (simp add: wol_step wol_exit)
  qed
qed


lemma passes_unique:
  fixes ts :: int
  assumes "1 \<le> ts" "- ts < off - k * ts" "off - k * ts \<le> 0" "- ts < off - j * ts" "off - j * ts \<le> 0"
  shows "k = j"
proof (rule ccontr)
  assume "k \<noteq> j"
  then consider "k + 1 \<le> j" | "j + 1 \<le> k" by linarith
  then show False
  proof cases
    case 1
    then have "(k + 1) * ts \<le> j * ts" using assms(1) by (intro mult_right_mono) simp_all
    then have "k * ts + ts \<le> j * ts" by (simp add: algebra_simps)
    with assms show False by linarith
  next
    case 2
    then have "(j + 1) * ts \<le> k * ts" using assms(1) by (intro mult_right_mono) simp_all
    then have "j * ts + ts \<le> k * ts" by (simp add: algebra_simps)
    with assms show False by linarith
  qed
qed

lemma normalize_axis_runs:
  assumes "1 \<le> ts" "m \<noteq> 0"
  shows "\<exists>k. - ts < off - k * ts \<and> off - k * ts \<le> 0 \<and>
           normalize_axis ts (Some m) off c
             = Some (Inr (off - k * ts, if k = 0 then c else (c + k) mod m))"
proof -
  consider "0 < off" | "off \<le> - ts" | "- ts < off" "off \<le> 0" by linarith
  then show ?thesis
  proof cases
    case 1
    from wop_runs[OF assms 1, of c] obtain k where k: "0 < k" "- ts < off - k * ts"
      "off - k * ts \<le> 0"
      "while_offset_positive ts (Some m) off c = Some (Inr (off - k * ts, (c + k) mod m))"
      by blast
    show ?thesis
      apply (rule exI[of _ k])
      using k by (simp add: normalize_axis_def wol_exit)
  next
    case 2
    then have "\<not> 0 < off" using assms(1) by linarith
    then have p: "while_offset_positive ts (Some m) off c = Some (Inr (off, c))"
      by (rule wop_exit)
    from wol_runs[OF assms 2, of c] obtain k where k: "0 < k" "- ts < off + k * ts"
      "off + k * ts \<le> 0"
      "while_offset_low ts (Some m) off c = Some (Inr (off + k * ts, (c - k) mod m))"
      by blast
    show ?thesis
      apply (rule exI[of _ "- k"])
      using k p by (simp add: normalize_axis_def)
  next
    case 3
    show ?thesis
      apply (rule exI[of _ 0])
      using 3 by (simp add: normalize_axis_def wop_exit wol_exit)
  qed
qed

lemma normalize_axis_eq:
  assumes "1 \<le> ts" "m \<noteq> 0" "- ts < off - k * ts" "off - k * ts \<le> 0"
  shows "normalize_axis ts (Some m) off c
           = Some (Inr (off - k * ts, if k = 0 then c else (c + k) mod m))"
proof -
  from normalize_axis_runs[OF assms(1,2), of off c] obtain j where
    j: "- ts < off - j * ts" "off - j * ts \<le> 0"
       "normalize_axis ts (Some m) off c
          = Some (Inr (off - j * ts, if j = 0 then c else (c + j) mod m))"
    by blast
  have "j = k" using passes_unique[OF assms(1) j(1,2) assms(3,4)] .
  with j(3) show ?thesis by simp
qed

text \<open>From a coordinate in range the result is the shifted coordinate modulo the count.\<close>
lemma normalize_axis_in_range:
  assumes "1 \<le> ts" "1 \<le> m" "0 \<le> c" "c < m" "- ts < off - k * ts" "off - k * ts \<le> 0"
  shows "normalize_axis ts (Some m) off c = Some (Inr (off - k * ts, (c + k) mod m))"
proof -
  have "m \<noteq> 0" using assms(2) by simp
  from normalize_axis_eq[OF assms(1) this assms(5,6), of c]
  show ?thesis using assms(3,4) by simp
qed

lemma normalize_axis_compose:
  assumes "1 \<le> ts" "1 \<le> m" "0 \<le> c" "c < m" "- ts < off" "off \<le> 0"
  shows "\<exists>o1 c1 o2 c2.
           normalize_axis ts (Some m) (off - a) c = Some (Inr (o1, c1)) \<and>
           normalize_axis ts (Some m) (o1 - b) c1 = Some (Inr (o2, c2)) \<and>
           normalize_axis ts (Some m) (off - (a + b)) c = Some (Inr (o2, c2)) \<and>
           - ts < o1 \<and> o1 \<le> 0 \<and> 0 \<le> c1 \<and> c1 < m \<and>
           - ts < o2 \<and> o2 \<le> 0 \<and> 0 \<le> c2 \<and> c2 < m"
proof -
  have m0: "m \<noteq> 0" using assms(2) by simp
  from normalize_axis_runs[OF assms(1) m0, of "off - a" c] obtain k1 where
    k1: "- ts < off - a - k1 * ts" "off - a - k1 * ts \<le> 0" by blast
  define o1 where "o1 = off - a - k1 * ts"
  define c1 where "c1 = (c + k1) mod m"
  have r1: "normalize_axis ts (Some m) (off - a) c = Some (Inr (o1, c1))"
    unfolding o1_def c1_def by (rule normalize_axis_in_range[OF assms(1-4) k1])
  have c1r: "0 \<le> c1" "c1 < m" using assms(2) by (simp_all add: c1_def)
  from normalize_axis_runs[OF assms(1) m0, of "o1 - b" c1] obtain k2 where
    k2: "- ts < o1 - b - k2 * ts" "o1 - b - k2 * ts \<le> 0" by blast
  define o2 where "o2 = o1 - b - k2 * ts"
  define c2 where "c2 = (c1 + k2) mod m"
  have r2: "normalize_axis ts (Some m) (o1 - b) c1 = Some (Inr (o2, c2))"
    unfolding o2_def c2_def by (rule normalize_axis_in_range[OF assms(1,2) c1r k2])
  have c2r: "0 \<le> c2" "c2 < m" using assms(2) by (simp_all add: c2_def)
  have o2': "o2 = off - (a + b) - (k1 + k2) * ts"
    by (simp add: o2_def o1_def algebra_simps)
  have "c2 = ((c + k1) mod m + k2) mod m" by (simp add: c2_def c1_def)
  also have "\<dots> = (c + k1 + k2) mod m" by (simp only: mod_add_left_eq)
  finally have c2': "c2 = (c + (k1 + k2)) mod m" by (simp add: add.assoc)
  have b3: "- ts < off - (a + b) - (k1 + k2) * ts" "off - (a + b) - (k1 + k2) * ts \<le> 0"
    using k2 unfolding o2_def[symmetric] o2' by simp_all
  have r3: "normalize_axis ts (Some m) (off - (a + b)) c = Some (Inr (o2, c2))"
    unfolding o2' c2' by (rule normalize_axis_in_range[OF assms(1-4) b3])
  show ?thesis
    using r1 r2 r3 c1r c2r k1 k2 unfolding o1_def[symmetric] o2_def[symmetric] by blast
qed

subsection \<open>The example widgets\<close>

lemma init_wrapping: "init wrapping_source 0 = Inr (fresh_widget wrapping_source)"
  by (simp add: init_def fresh_widget_def wrapping_source_def)

lemma grid_widget_fields:
  "tile_src (grid_widget src) = src"
  "tile_size_x (grid_widget src) = src_tile_size_x src"
  "tile_size_y (grid_widget src) = src_tile_size_y src"
  "num_tiles_x (grid_widget src) = Some 4"
  "num_tiles_y (grid_widget src) = Some 4"
  "key_tile_left (grid_widget src) = 0"
  "key_tile_top (grid_widget src) = 0"
  "key_tile_xoffset (grid_widget src) = 0"
  "key_tile_yoffset (grid_widget src) = 0"
  "view_width (grid_widget src) = 0"
  "view_height (grid_widget src) = 0"
  by (simp_all add: grid_widget_def fresh_widget_def attributes_def zoom_level_def
      accept_level_def four_by_four_def)

subsection \<open>What a block of normalize_view can change\<close>

lemma normalize_x_changes:
  assumes "normalize_x delta_x w = Some r"
  shows "widget_after r = w\<lparr>key_tile_xoffset := key_tile_xoffset (widget_after r),
                               key_tile_left := key_tile_left (widget_after r)\<rparr>"
  using assms
  by (cases r)
     (auto simp: normalize_x_def split: option.splits sum.splits prod.splits if_splits)

lemma normalize_y_changes:
  assumes "normalize_y delta_y w = Some r"
  shows "widget_after r = w\<lparr>key_tile_yoffset := key_tile_yoffset (widget_after r),
                               key_tile_top := key_tile_top (widget_after r)\<rparr>"
  using assms
  by (cases r)
     (auto simp: normalize_y_def split: option.splits sum.splits prod.splits if_splits)

lemma normalize_x_bounded: "\<not> wrap_x (tile_src w) \<Longrightarrow> normalize_x delta_x w = Some (Inr w)"
  by (simp add: normalize_x_def split: option.splits)

lemma normalize_y_bounded: "\<not> wrap_y (tile_src w) \<Longrightarrow> normalize_y delta_y w = Some (Inr w)"
  by (simp add: normalize_y_def split: option.splits)

lemma normalize_view_cases:
  assumes "normalize_view delta_x delta_y w = Some r"
  obtains (x_raised) "normalize_x delta_x w = Some r" "\<exists>e. r = Inl e"
  | (x_returned) w1 where "normalize_x delta_x w = Some (Inr w1)" "normalize_y delta_y w1 = Some r"
  using assms unfolding normalize_view_def
  by (auto split: option.splits sum.splits)

subsection \<open>Panning on an axis that does not wrap\<close>

text \<open>
  Claim C8. When the source does not wrap in X, the X block of \<^verbatim>\<open>normalize_view\<close>
  returns with the widget as it was, and however the call of \<^verbatim>\<open>normalize_view\<close>
  ends, by a return or by an exception of the Y block, \<^verbatim>\<open>key_tile_left\<close> and
  \<^verbatim>\<open>key_tile_xoffset\<close> are what they were, for every widget and every pair of deltas.
  The same holds for Y and \<^verbatim>\<open>key_tile_top\<close>, \<^verbatim>\<open>key_tile_yoffset\<close>, and when
  neither axis wraps the call returns and the whole widget is unchanged.
\<close>

theorem bounded_axis_pan_inert:
  "(\<not> wrap_x (tile_src w) \<longrightarrow>
      normalize_x delta_x w = Some (Inr w) \<and>
      (\<forall>r. normalize_view delta_x delta_y w = Some r \<longrightarrow>
         key_tile_left (widget_after r) = key_tile_left w \<and>
         key_tile_xoffset (widget_after r) = key_tile_xoffset w)) \<and>
   (\<not> wrap_y (tile_src w) \<longrightarrow>
      normalize_y delta_y w = Some (Inr w) \<and>
      (\<forall>r. normalize_view delta_x delta_y w = Some r \<longrightarrow>
         key_tile_top (widget_after r) = key_tile_top w \<and>
         key_tile_yoffset (widget_after r) = key_tile_yoffset w)) \<and>
   (\<not> wrap_x (tile_src w) \<and> \<not> wrap_y (tile_src w) \<longrightarrow>
      normalize_view delta_x delta_y w = Some (Inr w))"
proof (intro conjI impI allI)
  assume nx: "\<not> wrap_x (tile_src w)"
  show "normalize_x delta_x w = Some (Inr w)" using nx by (rule normalize_x_bounded)
  fix r assume r: "normalize_view delta_x delta_y w = Some r"
  have "normalize_y delta_y w = Some r"
    using r by (simp add: normalize_view_def normalize_x_bounded[OF nx])
  from normalize_y_changes[OF this] have
    eq: "widget_after r = w\<lparr>key_tile_yoffset := key_tile_yoffset (widget_after r),
                                 key_tile_top := key_tile_top (widget_after r)\<rparr>" .
  show "key_tile_left (widget_after r) = key_tile_left w"
    using arg_cong[OF eq, of key_tile_left] by simp
  show "key_tile_xoffset (widget_after r) = key_tile_xoffset w"
    using arg_cong[OF eq, of key_tile_xoffset] by simp
next
  assume ny: "\<not> wrap_y (tile_src w)"
  show "normalize_y delta_y w = Some (Inr w)" using ny by (rule normalize_y_bounded)
  fix r assume r: "normalize_view delta_x delta_y w = Some r"
  from r have "key_tile_top (widget_after r) = key_tile_top w \<and>
               key_tile_yoffset (widget_after r) = key_tile_yoffset w"
  proof (cases rule: normalize_view_cases)
    case x_raised
    note eq = normalize_x_changes[OF x_raised(1)]
    show ?thesis
      using arg_cong[OF eq, of key_tile_top] arg_cong[OF eq, of key_tile_yoffset] by simp
  next
    case (x_returned w1)
    from normalize_x_changes[OF x_returned(1)] have
      w1: "w1 = w\<lparr>key_tile_xoffset := key_tile_xoffset w1, key_tile_left := key_tile_left w1\<rparr>"
      by simp
    have "\<not> wrap_y (tile_src w1)" using ny arg_cong[OF w1, of tile_src] by simp
    from normalize_y_bounded[OF this, of delta_y] x_returned(2) have "r = Inr w1" by simp
    then show ?thesis
      using arg_cong[OF w1, of key_tile_top] arg_cong[OF w1, of key_tile_yoffset] by simp
  qed
  then show "key_tile_top (widget_after r) = key_tile_top w"
    and "key_tile_yoffset (widget_after r) = key_tile_yoffset w" by simp_all
next
  assume "\<not> wrap_x (tile_src w) \<and> \<not> wrap_y (tile_src w)"
  then show "normalize_view delta_x delta_y w = Some (Inr w)"
    by (simp add: normalize_view_def normalize_x_bounded normalize_y_bounded)
qed

theorem bounded_axis_pan_inert_witness:
  "\<not> wrap_x (tile_src (grid_widget bounded_source)) \<and>
   \<not> wrap_y (tile_src (grid_widget bounded_source)) \<and>
   normalize_x (Some 300) (grid_widget bounded_source) = Some (Inr (grid_widget bounded_source)) \<and>
   normalize_y (Some (- 50)) (grid_widget bounded_source)
     = Some (Inr (grid_widget bounded_source)) \<and>
   normalize_view (Some 300) (Some (- 50)) (grid_widget bounded_source)
     = Some (Inr (grid_widget bounded_source))"
  using bounded_axis_pan_inert[of "grid_widget bounded_source" "Some 300" "Some (- 50)"]
  by (simp add: grid_widget_fields bounded_source_def)

subsection \<open>A rejected zoom\<close>

text \<open>
  Claim C5. When \<^verbatim>\<open>UseLevel\<close> returns false for the requested level,
  \<^verbatim>\<open>zoom_level\<close> returns false and every attribute of the widget is what it was
  before the call: the level, the key tile, the tile counts, and the count of
  \<^verbatim>\<open>update()\<close> calls, so no repaint is requested. The tile source is as
  \<^verbatim>\<open>UseLevel\<close> left it. \<open>zoom_level\<close> is a total function, so no exception is
  raised.
\<close>

theorem zoom_level_rejected:
  assumes "fst (UseLevel (tile_src w) lvl) = False"
  shows "zoom_level UseLevel GetInfo lvl w
           = (False, w\<lparr>tile_src := snd (UseLevel (tile_src w) lvl)\<rparr>)"
proof (cases "UseLevel (tile_src w) lvl")
  case (Pair result src')
  with assms have "\<not> result" by simp
  with Pair show ?thesis by (simp add: zoom_level_def)
qed


theorem zoom_level_rejected_witness:
  "fst (reject_level (tile_src (grid_widget wrapping_source)) 7) = False \<and>
   zoom_level reject_level four_by_four 7 (grid_widget wrapping_source)
     = (False, grid_widget wrapping_source)"
  using zoom_level_rejected[of reject_level "grid_widget wrapping_source" 7 four_by_four]
  by (simp add: reject_level_def)

subsection \<open>The loops of normalize_view end\<close>

lemma wop_terminates: "1 \<le> ts \<Longrightarrow> \<exists>r. while_offset_positive ts n off c = Some r"
proof (cases "0 < off")
  case False
  then show ?thesis by (simp add: wop_exit)
next
  case True
  assume ts: "1 \<le> ts"
  show ?thesis
  proof (cases n)
    case None
    then show ?thesis using True by (simp add: wop_unset)
  next
    case (Some m)
    show ?thesis
    proof (cases "m = 0")
      case True
      then show ?thesis using Some \<open>0 < off\<close> by (simp add: wop_zero)
    next
      case False
      from wop_runs[OF ts False True, of c] show ?thesis using Some by blast
    qed
  qed
qed

lemma wol_terminates: "1 \<le> ts \<Longrightarrow> \<exists>r. while_offset_low ts n off c = Some r"
proof (cases "off \<le> - ts")
  case False
  then show ?thesis by (simp add: wol_exit)
next
  case True
  assume ts: "1 \<le> ts"
  show ?thesis
  proof (cases n)
    case None
    then show ?thesis using True by (simp add: wol_unset)
  next
    case (Some m)
    show ?thesis
    proof (cases "m = 0")
      case True
      then show ?thesis using Some \<open>off \<le> - ts\<close> by (simp add: wol_zero)
    next
      case False
      from wol_runs[OF ts False True, of c] show ?thesis using Some by blast
    qed
  qed
qed

lemma normalize_axis_terminates:
  assumes "1 \<le> ts"
  shows "\<exists>r. normalize_axis ts n off c = Some r"
proof -
  from wop_terminates[OF assms, of n off c] obtain r1 where
    r1: "while_offset_positive ts n off c = Some r1" by blast
  show ?thesis
  proof (cases r1)
    case (Inl e)
    then show ?thesis using r1 by (simp add: normalize_axis_def)
  next
    case (Inr p)
    obtain off1 c1 where p: "p = (off1, c1)" by (cases p)
    from wol_terminates[OF assms, of n off1 c1] show ?thesis
      using r1 Inr p by (simp add: normalize_axis_def)
  qed
qed

lemma normalize_x_terminates:
  assumes "1 \<le> tile_size_x w"
  shows "\<exists>r. normalize_x delta w = Some r"
proof (cases "\<exists>d. delta = Some d \<and> d \<noteq> 0 \<and> wrap_x (tile_src w)")
  case False
  then have "normalize_x delta w = Some (Inr w)"
    by (auto simp: normalize_x_def split: option.splits)
  then show ?thesis by simp
next
  case True
  then obtain d where d: "delta = Some d" "d \<noteq> 0" "wrap_x (tile_src w)" by blast
  from normalize_axis_terminates[OF assms] obtain r where
    r: "normalize_axis (tile_size_x w) (num_tiles_x w) (key_tile_xoffset w - d) (key_tile_left w) = Some r"
    by blast
  show ?thesis
    using d r by (cases r) (auto simp: normalize_x_def split: prod.splits)
qed

lemma normalize_y_terminates:
  assumes "1 \<le> tile_size_y w"
  shows "\<exists>r. normalize_y delta w = Some r"
proof (cases "\<exists>d. delta = Some d \<and> d \<noteq> 0 \<and> wrap_y (tile_src w)")
  case False
  then have "normalize_y delta w = Some (Inr w)"
    by (auto simp: normalize_y_def split: option.splits)
  then show ?thesis by simp
next
  case True
  then obtain d where d: "delta = Some d" "d \<noteq> 0" "wrap_y (tile_src w)" by blast
  from normalize_axis_terminates[OF assms] obtain r where
    r: "normalize_axis (tile_size_y w) (num_tiles_y w) (key_tile_yoffset w - d) (key_tile_top w) = Some r"
    by blast
  show ?thesis
    using d r by (cases r) (auto simp: normalize_y_def split: prod.splits)
qed

text \<open>
  Claim C9. With a tile size of at least one, each of the two loops of
  \<^verbatim>\<open>normalize_view\<close> ends, from every offset and coordinate and for every tile count
  (by a return, or by an exception when the tile count is unset or zero), and so a call of
  \<^verbatim>\<open>normalize_view\<close> ends for every pair of deltas when both tile sizes are at least
  one.
\<close>

theorem normalize_view_terminates:
  "(1 \<le> ts \<longrightarrow>
      (\<exists>r. while_offset_positive ts n off c = Some r) \<and>
      (\<exists>r. while_offset_low ts n off c = Some r)) \<and>
   (1 \<le> tile_size_x w \<and> 1 \<le> tile_size_y w \<longrightarrow>
      (\<exists>r. normalize_view delta_x delta_y w = Some r))"
proof (intro conjI impI)
  assume "1 \<le> ts"
  then show "\<exists>r. while_offset_positive ts n off c = Some r"
    and "\<exists>r. while_offset_low ts n off c = Some r"
    by (rule wop_terminates, rule wol_terminates)
next
  assume ts: "1 \<le> tile_size_x w \<and> 1 \<le> tile_size_y w"
  then obtain r1 where r1: "normalize_x delta_x w = Some r1"
    using normalize_x_terminates by blast
  show "\<exists>r. normalize_view delta_x delta_y w = Some r"
  proof (cases r1)
    case (Inl e)
    then show ?thesis using r1 by (simp add: normalize_view_def)
  next
    case (Inr w1)
    note eq = normalize_x_changes[OF r1]
    have "tile_size_y w1 = tile_size_y w"
      using arg_cong[OF eq, of tile_size_y] Inr by simp
    then have "1 \<le> tile_size_y w1" using ts by simp
    from normalize_y_terminates[OF this] show ?thesis
      using r1 Inr by (simp add: normalize_view_def)
  qed
qed

theorem normalize_view_terminates_witness:
  "(1::int) \<le> 256 \<and>
   (\<exists>r. while_offset_positive 256 (Some 4) 300 0 = Some r) \<and>
   (\<exists>r. while_offset_low 256 (Some 4) 300 0 = Some r) \<and>
   1 \<le> tile_size_x (grid_widget wrapping_source) \<and>
   1 \<le> tile_size_y (grid_widget wrapping_source) \<and>
   (\<exists>r. normalize_view (Some 300) (Some (- 50)) (grid_widget wrapping_source) = Some r)"
  using normalize_view_terminates[of 256 "Some 4" 300 0 "grid_widget wrapping_source"
      "Some 300" "Some (- 50)"]
  by (simp add: grid_widget_fields wrapping_source_def)

subsection \<open>The key tile stays normalized\<close>

lemma normalize_axis_keeps:
  assumes "axis_normalized ts n off c"
  shows "\<exists>off' c'. normalize_axis ts n (off - d) c = Some (Inr (off', c')) \<and>
           axis_normalized ts n off' c'"
proof -
  from assms obtain m where m: "n = Some m" "1 \<le> ts" "1 \<le> m" "0 \<le> c" "c < m"
    by (auto simp: axis_normalized_def split: option.splits)
  have m0: "m \<noteq> 0" using m(3) by simp
  from normalize_axis_runs[OF m(2) m0, of "off - d" c] obtain k where
    k: "- ts < off - d - k * ts" "off - d - k * ts \<le> 0"
       "normalize_axis ts (Some m) (off - d) c
          = Some (Inr (off - d - k * ts, if k = 0 then c else (c + k) mod m))"
    by blast
  have "0 \<le> (if k = 0 then c else (c + k) mod m)" "(if k = 0 then c else (c + k) mod m) < m"
    using m by simp_all
  then have "axis_normalized ts n (off - d - k * ts) (if k = 0 then c else (c + k) mod m)"
    using m k by (simp add: axis_normalized_def)
  with k(3) m(1) show ?thesis by blast
qed

lemma normalize_x_keeps:
  assumes "wrap_x (tile_src w) \<longrightarrow> x_normalized w"
  shows "\<exists>off c. normalize_x delta w = Some (Inr (w\<lparr>key_tile_xoffset := off, key_tile_left := c\<rparr>)) \<and>
           (wrap_x (tile_src w) \<longrightarrow>
              axis_normalized (tile_size_x w) (num_tiles_x w) off c)"
proof (cases "\<exists>d. delta = Some d \<and> d \<noteq> 0 \<and> wrap_x (tile_src w)")
  case False
  then have "normalize_x delta w = Some (Inr w)"
    by (auto simp: normalize_x_def split: option.splits)
  then have "normalize_x delta w
       = Some (Inr (w\<lparr>key_tile_xoffset := key_tile_xoffset w, key_tile_left := key_tile_left w\<rparr>))"
    by simp
  moreover have "wrap_x (tile_src w) \<longrightarrow>
      axis_normalized (tile_size_x w) (num_tiles_x w) (key_tile_xoffset w) (key_tile_left w)"
    using assms by (simp add: x_normalized_def)
  ultimately show ?thesis by blast
next
  case True
  then obtain d where d: "delta = Some d" "d \<noteq> 0" "wrap_x (tile_src w)" by blast
  with assms have "axis_normalized (tile_size_x w) (num_tiles_x w) (key_tile_xoffset w)
      (key_tile_left w)" by (simp add: x_normalized_def)
  from normalize_axis_keeps[OF this, of d] obtain off' c' where
    r: "normalize_axis (tile_size_x w) (num_tiles_x w) (key_tile_xoffset w - d) (key_tile_left w)
          = Some (Inr (off', c'))"
       "axis_normalized (tile_size_x w) (num_tiles_x w) off' c'" by blast
  have "normalize_x delta w = Some (Inr (w\<lparr>key_tile_xoffset := off', key_tile_left := c'\<rparr>))"
    using d r(1) by (simp add: normalize_x_def)
  with r(2) show ?thesis by blast
qed

lemma normalize_y_keeps:
  assumes "wrap_y (tile_src w) \<longrightarrow> y_normalized w"
  shows "\<exists>off c. normalize_y delta w = Some (Inr (w\<lparr>key_tile_yoffset := off, key_tile_top := c\<rparr>)) \<and>
           (wrap_y (tile_src w) \<longrightarrow>
              axis_normalized (tile_size_y w) (num_tiles_y w) off c)"
proof (cases "\<exists>d. delta = Some d \<and> d \<noteq> 0 \<and> wrap_y (tile_src w)")
  case False
  then have "normalize_y delta w = Some (Inr w)"
    by (auto simp: normalize_y_def split: option.splits)
  then have "normalize_y delta w
       = Some (Inr (w\<lparr>key_tile_yoffset := key_tile_yoffset w, key_tile_top := key_tile_top w\<rparr>))"
    by simp
  moreover have "wrap_y (tile_src w) \<longrightarrow>
      axis_normalized (tile_size_y w) (num_tiles_y w) (key_tile_yoffset w) (key_tile_top w)"
    using assms by (simp add: y_normalized_def)
  ultimately show ?thesis by blast
next
  case True
  then obtain d where d: "delta = Some d" "d \<noteq> 0" "wrap_y (tile_src w)" by blast
  with assms have "axis_normalized (tile_size_y w) (num_tiles_y w) (key_tile_yoffset w)
      (key_tile_top w)" by (simp add: y_normalized_def)
  from normalize_axis_keeps[OF this, of d] obtain off' c' where
    r: "normalize_axis (tile_size_y w) (num_tiles_y w) (key_tile_yoffset w - d) (key_tile_top w)
          = Some (Inr (off', c'))"
       "axis_normalized (tile_size_y w) (num_tiles_y w) off' c'" by blast
  have "normalize_y delta w = Some (Inr (w\<lparr>key_tile_yoffset := off', key_tile_top := c'\<rparr>))"
    using d r(1) by (simp add: normalize_y_def)
  with r(2) show ?thesis by blast
qed

lemma normalize_view_x_normalized:
  assumes "wrap_x (tile_src w)" "x_normalized w" "normalize_view delta_x delta_y w = Some r"
  shows "x_normalized (widget_after r)"
proof -
  from assms(1,2) have "wrap_x (tile_src w) \<longrightarrow> x_normalized w" by simp
  from normalize_x_keeps[OF this, of delta_x] assms(1) obtain off c where
    x1: "normalize_x delta_x w = Some (Inr (w\<lparr>key_tile_xoffset := off, key_tile_left := c\<rparr>))"
    and x2: "axis_normalized (tile_size_x w) (num_tiles_x w) off c"
    by blast
  define w1 where "w1 = w\<lparr>key_tile_xoffset := off, key_tile_left := c\<rparr>"
  have "normalize_y delta_y w1 = Some r"
    using assms(3) x1 by (simp add: normalize_view_def w1_def)
  note eq = normalize_y_changes[OF this]
  have "x_normalized w1" using x2 by (simp add: x_normalized_def w1_def)
  then show ?thesis
    by (subst eq) (simp add: x_normalized_def)
qed

lemma normalize_view_y_normalized:
  assumes "wrap_y (tile_src w)" "y_normalized w" "normalize_view delta_x delta_y w = Some r"
  shows "y_normalized (widget_after r)"
  using assms(3)
proof (cases rule: normalize_view_cases)
  case x_raised
  note eq = normalize_x_changes[OF x_raised(1)]
  show ?thesis using assms(2)
    by (subst eq) (simp add: y_normalized_def)
next
  case (x_returned w1)
  from normalize_x_changes[OF x_returned(1)] have
    w1: "w1 = w\<lparr>key_tile_xoffset := key_tile_xoffset w1, key_tile_left := key_tile_left w1\<rparr>"
    by simp
  have y1: "y_normalized w1" using assms(2) by (subst w1) (simp add: y_normalized_def)
  then have "wrap_y (tile_src w1) \<longrightarrow> y_normalized w1" by simp
  from normalize_y_keeps[OF this, of delta_y] obtain off c where
    y2: "normalize_y delta_y w1 = Some (Inr (w1\<lparr>key_tile_yoffset := off, key_tile_top := c\<rparr>))"
    and y3: "wrap_y (tile_src w1) \<longrightarrow> axis_normalized (tile_size_y w1) (num_tiles_y w1) off c"
    by blast
  have "wrap_y (tile_src w1)" using assms(1) by (subst w1) simp
  with y3 have "axis_normalized (tile_size_y w1) (num_tiles_y w1) off c" by simp
  moreover have "r = Inr (w1\<lparr>key_tile_yoffset := off, key_tile_top := c\<rparr>)"
    using y2 x_returned(2) by simp
  ultimately show ?thesis by (simp add: y_normalized_def)
qed

lemma normalize_view_keeps_all:
  assumes "key_tile_normalized w"
  shows "\<exists>w'. normalize_view delta_x delta_y w = Some (Inr w') \<and> key_tile_normalized w'"
proof -
  from assms have x: "wrap_x (tile_src w) \<longrightarrow> x_normalized w"
    and y: "wrap_y (tile_src w) \<longrightarrow> y_normalized w"
    by (simp_all add: key_tile_normalized_def)
  from normalize_x_keeps[OF x, of delta_x] obtain off c where
    x1: "normalize_x delta_x w = Some (Inr (w\<lparr>key_tile_xoffset := off, key_tile_left := c\<rparr>))"
    and x2: "wrap_x (tile_src w) \<longrightarrow> axis_normalized (tile_size_x w) (num_tiles_x w) off c"
    by blast
  define w1 where "w1 = w\<lparr>key_tile_xoffset := off, key_tile_left := c\<rparr>"
  have y1: "wrap_y (tile_src w1) \<longrightarrow> y_normalized w1"
    using y by (simp add: w1_def y_normalized_def)
  from normalize_y_keeps[OF y1, of delta_y] obtain off' c' where
    y2: "normalize_y delta_y w1 = Some (Inr (w1\<lparr>key_tile_yoffset := off', key_tile_top := c'\<rparr>))"
    and y3: "wrap_y (tile_src w1) \<longrightarrow> axis_normalized (tile_size_y w1) (num_tiles_y w1) off' c'"
    by blast
  define w2 where "w2 = w1\<lparr>key_tile_yoffset := off', key_tile_top := c'\<rparr>"
  have "normalize_view delta_x delta_y w = Some (Inr w2)"
    using x1 y2 by (simp add: normalize_view_def w1_def w2_def)
  moreover have "key_tile_normalized w2"
    using x2 y3
    by (simp add: key_tile_normalized_def x_normalized_def y_normalized_def w1_def w2_def)
  ultimately show ?thesis by blast
qed

text \<open>
  Claim C1. An axis is normalized when its tile size and tile count are at least one, its
  key tile offset is above minus the tile size and at most zero, and its key tile
  coordinate is at least zero and below the tile count. If the source wraps in X and the X
  axis is normalized, the X axis is normalized in the widget that a call of
  \<^verbatim>\<open>normalize_view\<close> leaves, for every pair of deltas and however the call ends; the
  same holds for Y. If every axis that wraps is normalized, the call returns, and in the
  widget it leaves every axis that wraps is normalized again.
\<close>

theorem normalize_view_keeps_normalized:
  "(wrap_x (tile_src w) \<and> x_normalized w \<longrightarrow>
      (\<forall>r. normalize_view delta_x delta_y w = Some r \<longrightarrow> x_normalized (widget_after r))) \<and>
   (wrap_y (tile_src w) \<and> y_normalized w \<longrightarrow>
      (\<forall>r. normalize_view delta_x delta_y w = Some r \<longrightarrow> y_normalized (widget_after r))) \<and>
   (key_tile_normalized w \<longrightarrow>
      (\<exists>w'. normalize_view delta_x delta_y w = Some (Inr w') \<and> key_tile_normalized w'))"
  using normalize_view_x_normalized[where w = w and delta_x = delta_x and delta_y = delta_y]
    normalize_view_y_normalized[where w = w and delta_x = delta_x and delta_y = delta_y]
    normalize_view_keeps_all[where w = w and delta_x = delta_x and delta_y = delta_y]
  by blast

theorem normalize_view_keeps_normalized_witness:
  "key_tile_normalized (grid_widget wrapping_source) \<and>
   wrap_x (tile_src (grid_widget wrapping_source)) \<and>
   x_normalized (grid_widget wrapping_source) \<and>
   wrap_y (tile_src (grid_widget wrapping_source)) \<and>
   y_normalized (grid_widget wrapping_source) \<and>
   (\<exists>w'. normalize_view (Some 300) (Some (- 50)) (grid_widget wrapping_source) = Some (Inr w') \<and>
      key_tile_normalized w' \<and> x_normalized w' \<and> y_normalized w')"
proof -
  have h: "wrap_x (tile_src (grid_widget wrapping_source))"
    "x_normalized (grid_widget wrapping_source)"
    "wrap_y (tile_src (grid_widget wrapping_source))"
    "y_normalized (grid_widget wrapping_source)"
    "key_tile_normalized (grid_widget wrapping_source)"
    by (simp_all add: key_tile_normalized_def x_normalized_def y_normalized_def
        axis_normalized_def grid_widget_fields wrapping_source_def)
  from normalize_view_keeps_normalized[of "grid_widget wrapping_source" "Some 300" "Some (- 50)"] h
  obtain w' where w': "normalize_view (Some 300) (Some (- 50)) (grid_widget wrapping_source)
      = Some (Inr w')" "key_tile_normalized w'" by blast
  from normalize_view_keeps_normalized[of "grid_widget wrapping_source" "Some 300" "Some (- 50)"]
    h w'(1)
  have "x_normalized (widget_after (Inr w'))" "y_normalized (widget_after (Inr w'))" by blast+
  with w' h show ?thesis by auto
qed

subsection \<open>Two pans in a row\<close>

lemma normalize_x_axis:
  assumes "wrap_x (tile_src w)" "x_normalized w"
    "normalize_axis (tile_size_x w) (num_tiles_x w) (key_tile_xoffset w - d) (key_tile_left w)
       = Some (Inr (off, c))"
  shows "normalize_x (Some d) w = Some (Inr (w\<lparr>key_tile_xoffset := off, key_tile_left := c\<rparr>))"
proof (cases "d = 0")
  case False
  then show ?thesis using assms by (simp add: normalize_x_def)
next
  case True
  from assms(2) obtain m where m: "num_tiles_x w = Some m" "1 \<le> tile_size_x w" "1 \<le> m"
    "0 \<le> key_tile_left w" "key_tile_left w < m"
    "- tile_size_x w < key_tile_xoffset w" "key_tile_xoffset w \<le> 0"
    by (auto simp: x_normalized_def axis_normalized_def split: option.splits)
  have "normalize_axis (tile_size_x w) (Some m) (key_tile_xoffset w) (key_tile_left w)
          = Some (Inr (key_tile_xoffset w - 0 * tile_size_x w, (key_tile_left w + 0) mod m))"
    by (rule normalize_axis_in_range) (use m in simp_all)
  then have "off = key_tile_xoffset w" "c = key_tile_left w"
    using assms(3) True m by simp_all
  then show ?thesis using True by (simp add: normalize_x_def)
qed

text \<open>
  Claim C6. On a source that wraps in X, from a widget whose X axis is normalized,
  \<^verbatim>\<open>normalize_view(a, 0)\<close> followed by \<^verbatim>\<open>normalize_view(b, 0)\<close> returns and
  leaves the same widget as \<^verbatim>\<open>normalize_view(a + b, 0)\<close>, for all integers \<open>a\<close> and
  \<open>b\<close>.
\<close>

theorem pan_composition:
  assumes "wrap_x (tile_src w)" "x_normalized w"
  shows "\<exists>w1 w2. normalize_view (Some a) (Some 0) w = Some (Inr w1) \<and>
                  normalize_view (Some b) (Some 0) w1 = Some (Inr w2) \<and>
                  normalize_view (Some (a + b)) (Some 0) w = Some (Inr w2)"
proof -
  have nv: "normalize_view (Some d) (Some 0) v = normalize_x (Some d) v" for d v
    by (simp add: normalize_view_def normalize_y_def split: option.splits sum.splits)
  from assms(2) obtain m where m: "num_tiles_x w = Some m" "1 \<le> tile_size_x w" "1 \<le> m"
    "0 \<le> key_tile_left w" "key_tile_left w < m"
    "- tile_size_x w < key_tile_xoffset w" "key_tile_xoffset w \<le> 0"
    by (auto simp: x_normalized_def axis_normalized_def split: option.splits)
  from normalize_axis_compose[OF m(2-7), of a b] obtain o1 c1 o2 c2 where
    r1: "normalize_axis (tile_size_x w) (Some m) (key_tile_xoffset w - a) (key_tile_left w)
           = Some (Inr (o1, c1))"
    and r2: "normalize_axis (tile_size_x w) (Some m) (o1 - b) c1 = Some (Inr (o2, c2))"
    and r3: "normalize_axis (tile_size_x w) (Some m) (key_tile_xoffset w - (a + b)) (key_tile_left w)
           = Some (Inr (o2, c2))"
    and b1: "- tile_size_x w < o1" "o1 \<le> 0" "0 \<le> c1" "c1 < m"
    by blast
  define w1 where "w1 = w\<lparr>key_tile_xoffset := o1, key_tile_left := c1\<rparr>"
  define w2 where "w2 = w\<lparr>key_tile_xoffset := o2, key_tile_left := c2\<rparr>"
  have s1: "normalize_x (Some a) w = Some (Inr w1)"
    unfolding w1_def using assms r1 m(1) by (intro normalize_x_axis) simp_all
  have w1n: "wrap_x (tile_src w1)" "x_normalized w1"
    using assms(1) m b1 by (simp_all add: w1_def x_normalized_def axis_normalized_def)
  have "normalize_x (Some b) w1 = Some (Inr (w1\<lparr>key_tile_xoffset := o2, key_tile_left := c2\<rparr>))"
    using w1n r2 m(1) by (intro normalize_x_axis) (simp_all add: w1_def)
  then have s2: "normalize_x (Some b) w1 = Some (Inr w2)" by (simp add: w1_def w2_def)
  have s3: "normalize_x (Some (a + b)) w = Some (Inr w2)"
    unfolding w2_def using assms r3 m(1) by (intro normalize_x_axis) simp_all
  show ?thesis using s1 s2 s3 by (simp add: nv)
qed

theorem pan_composition_witness:
  "wrap_x (tile_src (grid_widget wrapping_source)) \<and> x_normalized (grid_widget wrapping_source) \<and>
   (\<exists>w1 w2. normalize_view (Some 300) (Some 0) (grid_widget wrapping_source) = Some (Inr w1) \<and>
             normalize_view (Some (- 50)) (Some 0) w1 = Some (Inr w2) \<and>
             normalize_view (Some 250) (Some 0) (grid_widget wrapping_source) = Some (Inr w2))"
proof -
  have h1: "wrap_x (tile_src (grid_widget wrapping_source))"
    by (simp add: grid_widget_fields wrapping_source_def)
  have h2: "x_normalized (grid_widget wrapping_source)"
    by (simp add: x_normalized_def axis_normalized_def grid_widget_fields wrapping_source_def)
  from pan_composition[OF h1 h2, of 300 "- 50"] h1 h2 show ?thesis by simp
qed

subsection \<open>One pass of the loop of paintEvent\<close>

lemma tll_exit: "\<not> pix < view \<Longrightarrow> tile_list_loop wrap n ts view pix coord acc = Some (Inr acc)"
  by (subst tile_list_loop.simps) simp

lemma tll_unset: "pix < view \<Longrightarrow>
  tile_list_loop wrap None ts view pix coord acc = Some (Inl AttributeError)"
  by (subst tile_list_loop.simps) simp

lemma tll_break: "pix < view \<Longrightarrow> \<not> wrap \<Longrightarrow> m - 1 \<le> coord \<Longrightarrow>
  tile_list_loop wrap (Some m) ts view pix coord acc = Some (Inr (acc @ [coord]))"
  by (subst tile_list_loop.simps) simp

lemma tll_zero: "pix < view \<Longrightarrow> wrap \<or> coord < - 1 \<Longrightarrow>
  tile_list_loop wrap (Some 0) ts view pix coord acc = Some (Inl ZeroDivisionError)"
  by (subst tile_list_loop.simps) auto

lemma tll_step: "pix < view \<Longrightarrow> m \<noteq> 0 \<Longrightarrow> wrap \<or> coord < m - 1 \<Longrightarrow>
  tile_list_loop wrap (Some m) ts view pix coord acc
    = tile_list_loop wrap (Some m) ts view (pix + ts) ((coord + 1) mod m) (acc @ [coord])"
  by (subst tile_list_loop.simps) auto

subsection \<open>Two pans worked by hand\<close>

text \<open>
  The widget of the examples: the source wraps, tiles are 256 pixels wide, there are four
  columns, the key tile is column 0 at offset 0.

  Claim C2. On that widget \<^verbatim>\<open>normalize_view(300, 0)\<close> returns and leaves the key tile
  offset at -44 and the key tile column at 3: the offset becomes -300, the first loop does
  not run, and the one pass of the second loop adds 256 to the offset and takes the column
  from 0 to -1, which is 3 modulo 4. The claim has column 1 with the same offset.
\<close>

theorem pan_300_key_tile:
  "normalize_view (Some 300) (Some 0) (grid_widget wrapping_source)
     = Some (Inr ((grid_widget wrapping_source)\<lparr>key_tile_xoffset := - 44, key_tile_left := 3\<rparr>))"
  by (simp add: normalize_view_def normalize_x_def normalize_y_def normalize_axis_def
      grid_widget_fields wrapping_source_def wop_exit wol_exit wol_step)

text \<open>
  Claim C3. On the same widget \<^verbatim>\<open>normalize_view(-50, 0)\<close> returns and leaves the key
  tile offset at -206 and the key tile column at 1: the offset becomes 50, and the one pass
  of the first loop subtracts 256 from the offset and takes the column from 0 to 1. The
  claim has column 3 with the same offset.
\<close>

theorem pan_minus_50_key_tile:
  "normalize_view (Some (- 50)) (Some 0) (grid_widget wrapping_source)
     = Some (Inr ((grid_widget wrapping_source)\<lparr>key_tile_xoffset := - 206, key_tile_left := 1\<rparr>))"
  by (simp add: normalize_view_def normalize_x_def normalize_y_def normalize_axis_def
      grid_widget_fields wrapping_source_def wop_exit wol_exit wop_step)

text \<open>
  What \<^verbatim>\<open>paintEvent\<close> makes of these key tiles, in a view 600 pixels wide.
  \<^verbatim>\<open>paintEvent\<close> puts the key tile column at the key tile offset and the next column
  (one more, modulo the count) one tile size to the right. With the offset at -300 and
  column 0 as key tile, before the loops run, the columns painted are 0, 1, 2, 3 at the
  pixels -300, -44, 212, 468. After the loops the key tile is column 3 at -44 and the
  columns painted are 3, 0, 1 at -44, 212, 468: the column at each pixel has changed. With
  column 1 at -44 the columns are 1, 2, 3, the same picture as before the loops.
\<close>

lemma pan_300_painted_columns:
  "col_list ((resizeEvent 600 400 (grid_widget wrapping_source))\<lparr>key_tile_xoffset := - 300\<rparr>)
     = Some (Inr [0, 1, 2, 3]) \<and>
   col_list ((resizeEvent 600 400 (grid_widget wrapping_source))
               \<lparr>key_tile_xoffset := - 44, key_tile_left := 3\<rparr>)
     = Some (Inr [3, 0, 1]) \<and>
   col_list ((resizeEvent 600 400 (grid_widget wrapping_source))
               \<lparr>key_tile_xoffset := - 44, key_tile_left := 1\<rparr>)
     = Some (Inr [1, 2, 3])"
  by (simp add: col_list_def resizeEvent_def grid_widget_fields wrapping_source_def
      tll_step tll_exit)

text \<open>
  The same for the other pan: column 0 at offset 50 paints 0, 1, 2 at 50, 306, 562; the
  loops leave column 1 at -206, which paints 1, 2, 3, 0 at -206, 50, 306, 562, while
  column 3 at -206 paints 3, 0, 1, 2, the same picture with the column to the left added.
\<close>

lemma pan_minus_50_painted_columns:
  "col_list ((resizeEvent 600 400 (grid_widget wrapping_source))\<lparr>key_tile_xoffset := 50\<rparr>)
     = Some (Inr [0, 1, 2]) \<and>
   col_list ((resizeEvent 600 400 (grid_widget wrapping_source))
               \<lparr>key_tile_xoffset := - 206, key_tile_left := 1\<rparr>)
     = Some (Inr [1, 2, 3, 0]) \<and>
   col_list ((resizeEvent 600 400 (grid_widget wrapping_source))
               \<lparr>key_tile_xoffset := - 206, key_tile_left := 3\<rparr>)
     = Some (Inr [3, 0, 1, 2])"
  by (simp add: col_list_def resizeEvent_def grid_widget_fields wrapping_source_def
      tll_step tll_exit)

subsection \<open>A view of no width\<close>

text \<open>
  Claim C4 asks for one column in a view of width 0, whatever the key tile offset.
  The loop of \<^verbatim>\<open>paintEvent\<close> tests \<^verbatim>\<open>x_pix_start < self.view_width\<close> before its
  first pass. The widget of the examples has a view of width 0 and the key tile at offset
  0, so the loop makes no pass and the column list is empty; it is not the list of the key
  tile column alone.
\<close>

theorem zero_width_no_column:
  "view_width (grid_widget wrapping_source) = 0 \<and>
   col_list (grid_widget wrapping_source) = Some (Inr []) \<and>
   col_list (grid_widget wrapping_source)
     \<noteq> Some (Inr [key_tile_left (grid_widget wrapping_source)])"
  by (simp add: col_list_def grid_widget_fields tll_exit)

lemma tll_zero_view:
  assumes "pix < 0" "- ts \<le> pix" "m \<noteq> 0"
  shows "tile_list_loop wrap (Some m) ts 0 pix coord [] = Some (Inr [coord])"
proof (cases "\<not> wrap \<and> m - 1 \<le> coord")
  case True
  then show ?thesis using assms by (simp add: tll_break)
next
  case False
  then have "wrap \<or> coord < m - 1" by auto
  from tll_step[OF assms(1) assms(3) this, of ts "[]"] show ?thesis
    using assms(2) by (simp add: tll_exit)
qed

text \<open>
  Claim C4, amended. In a view of width 0 the column list is empty when the key tile
  offset is zero or more. It is the key tile column alone when the key tile offset is
  negative and not below minus the tile width of the source, and the tile count is set and
  not zero. The same holds for the row list in a view of height 0.
\<close>

theorem zero_size_view_lists:
  "(view_width w = 0 \<and> 0 \<le> key_tile_xoffset w \<longrightarrow> col_list w = Some (Inr [])) \<and>
   (view_width w = 0 \<and> key_tile_xoffset w < 0 \<and>
      - src_tile_size_x (tile_src w) \<le> key_tile_xoffset w \<and>
      num_tiles_x w = Some mx \<and> mx \<noteq> 0 \<longrightarrow> col_list w = Some (Inr [key_tile_left w])) \<and>
   (view_height w = 0 \<and> 0 \<le> key_tile_yoffset w \<longrightarrow> row_list w = Some (Inr [])) \<and>
   (view_height w = 0 \<and> key_tile_yoffset w < 0 \<and>
      - src_tile_size_y (tile_src w) \<le> key_tile_yoffset w \<and>
      num_tiles_y w = Some my \<and> my \<noteq> 0 \<longrightarrow> row_list w = Some (Inr [key_tile_top w]))"
  by (simp add: col_list_def row_list_def tll_exit tll_zero_view)

theorem zero_size_view_lists_witness:
  "view_width (grid_widget wrapping_source) = 0 \<and>
   0 \<le> key_tile_xoffset (grid_widget wrapping_source) \<and>
   col_list (grid_widget wrapping_source) = Some (Inr []) \<and>
   view_height (grid_widget wrapping_source) = 0 \<and>
   0 \<le> key_tile_yoffset (grid_widget wrapping_source) \<and>
   row_list (grid_widget wrapping_source) = Some (Inr []) \<and>
   col_list ((grid_widget wrapping_source)\<lparr>key_tile_xoffset := - 44, key_tile_left := 3\<rparr>)
     = Some (Inr [3]) \<and>
   row_list ((grid_widget wrapping_source)\<lparr>key_tile_yoffset := - 206, key_tile_top := 1\<rparr>)
     = Some (Inr [1])"
  using zero_size_view_lists[of "grid_widget wrapping_source" 4 4]
    zero_size_view_lists[of "(grid_widget wrapping_source)\<lparr>key_tile_xoffset := - 44, key_tile_left := 3\<rparr>" 4 4]
    zero_size_view_lists[of "(grid_widget wrapping_source)\<lparr>key_tile_yoffset := - 206, key_tile_top := 1\<rparr>" 4 4]
  by (simp add: grid_widget_fields wrapping_source_def)


subsection \<open>A view of 600 pixels\<close>

text \<open>
  Claim C7. In a view 600 pixels wide, with tiles 256 pixels wide and the key tile at
  offset 0, the column list has exactly three entries, the key tile column and the two
  after it modulo the tile count, when the source wraps in X, or when it does not and the
  second column after the key tile exists. The tile count is set and not zero.
\<close>

theorem three_columns_in_600:
  assumes "view_width w = 600" "src_tile_size_x (tile_src w) = 256" "key_tile_xoffset w = 0"
    "num_tiles_x w = Some m" "m \<noteq> 0"
    "wrap_x (tile_src w) \<or> (0 \<le> key_tile_left w \<and> key_tile_left w + 2 < m)"
  shows "\<exists>cols. col_list w = Some (Inr cols) \<and> length cols = 3 \<and>
           cols = [key_tile_left w, (key_tile_left w + 1) mod m,
                   ((key_tile_left w + 1) mod m + 1) mod m]"
proof (cases "wrap_x (tile_src w)")
  case True
  then show ?thesis
    using assms(1-5) by (simp add: col_list_def tll_step tll_exit)
next
  case False
  define k0 where "k0 = key_tile_left w"
  define k1 where "k1 = k0 + 1"
  define k2 where "k2 = k1 + 1"
  from False assms(6) have k: "0 \<le> k0" "k2 < m" by (simp_all add: k0_def k1_def k2_def)
  have m1: "(k0 + 1) mod m = k1" using k by (simp add: k1_def k2_def)
  have m2: "(k1 + 1) mod m = k2" using k by (simp add: k1_def k2_def)
  have lt: "k0 < m - 1" "k1 < m - 1" using k by (simp_all add: k1_def k2_def)
  have s1: "tile_list_loop False (Some m) 256 600 0 k0 []
              = tile_list_loop False (Some m) 256 600 256 k1 [k0]"
    using tll_step[of 0 600 m False k0 256 "[]"] lt m1 assms(5) by simp
  have s2: "tile_list_loop False (Some m) 256 600 256 k1 [k0]
              = tile_list_loop False (Some m) 256 600 512 k2 [k0, k1]"
    using tll_step[of 256 600 m False k1 256 "[k0]"] lt m2 assms(5) by simp
  have s3: "tile_list_loop False (Some m) 256 600 512 k2 [k0, k1] = Some (Inr [k0, k1, k2])"
  proof (cases "m - 1 \<le> k2")
    case True
    then show ?thesis by (simp add: tll_break)
  next
    case False
    then have "k2 < m - 1" by simp
    with tll_step[of 512 600 m False k2 256 "[k0, k1]"] assms(5)
    show ?thesis by (simp add: tll_exit)
  qed
  have "col_list w = Some (Inr [k0, k1, k2])"
    using False assms(1-4) s1 s2 s3 by (simp add: col_list_def k0_def)
  then show ?thesis using m1 m2 by (simp add: k0_def)
qed

theorem three_columns_in_600_witness:
  "view_width (resizeEvent 600 400 (grid_widget wrapping_source)) = 600 \<and>
   src_tile_size_x (tile_src (resizeEvent 600 400 (grid_widget wrapping_source))) = 256 \<and>
   key_tile_xoffset (resizeEvent 600 400 (grid_widget wrapping_source)) = 0 \<and>
   num_tiles_x (resizeEvent 600 400 (grid_widget wrapping_source)) = Some 4 \<and>
   wrap_x (tile_src (resizeEvent 600 400 (grid_widget wrapping_source))) \<and>
   col_list (resizeEvent 600 400 (grid_widget wrapping_source)) = Some (Inr [0, 1, 2])"
proof -
  have h: "view_width (resizeEvent 600 400 (grid_widget wrapping_source)) = 600"
    "src_tile_size_x (tile_src (resizeEvent 600 400 (grid_widget wrapping_source))) = 256"
    "key_tile_xoffset (resizeEvent 600 400 (grid_widget wrapping_source)) = 0"
    "num_tiles_x (resizeEvent 600 400 (grid_widget wrapping_source)) = Some 4"
    "(4::int) \<noteq> 0"
    "wrap_x (tile_src (resizeEvent 600 400 (grid_widget wrapping_source))) \<or>
       (0 \<le> key_tile_left (resizeEvent 600 400 (grid_widget wrapping_source)) \<and>
        key_tile_left (resizeEvent 600 400 (grid_widget wrapping_source)) + 2 < 4)"
    by (simp_all add: resizeEvent_def grid_widget_fields wrapping_source_def)
  from three_columns_in_600[OF h] h show ?thesis
    by (simp add: resizeEvent_def grid_widget_fields wrapping_source_def)
qed

subsection \<open>The coordinates in the lists\<close>

lemma tll_valid:
  assumes "tile_list_loop wrap n ts view pix coord acc = Some r"
    and "n = Some m" "1 \<le> m" "0 \<le> coord" "coord < m" "\<forall>c\<in>set acc. 0 \<le> c \<and> c < m"
  shows "\<exists>cols. r = Inr cols \<and> (\<forall>c\<in>set cols. 0 \<le> c \<and> c < m)"
proof -
  have "n = Some m \<longrightarrow> 0 \<le> coord \<and> coord < m \<longrightarrow> (\<forall>c\<in>set acc. 0 \<le> c \<and> c < m) \<longrightarrow>
          (\<exists>cols. r = Inr cols \<and> (\<forall>c\<in>set cols. 0 \<le> c \<and> c < m))"
  proof (rule tile_list_loop.raw_induct[where
        P = "\<lambda>wrap n ts view pix coord acc r.
               n = Some m \<longrightarrow> 0 \<le> coord \<and> coord < m \<longrightarrow> (\<forall>c\<in>set acc. 0 \<le> c \<and> c < m) \<longrightarrow>
               (\<exists>cols. r = Inr cols \<and> (\<forall>c\<in>set cols. 0 \<le> c \<and> c < m))",
        OF _ assms(1)], goal_cases)
    case (1 f wrap n ts view pix coord acc r)
    show ?case
    proof (intro impI)
      assume n: "n = Some m" and c: "0 \<le> coord \<and> coord < m"
        and a: "\<forall>c\<in>set acc. 0 \<le> c \<and> c < m"
      have a': "\<forall>c\<in>set (acc @ [coord]). 0 \<le> c \<and> c < m" using a c by auto
      have c': "0 \<le> (coord + 1) mod m \<and> (coord + 1) mod m < m" using assms(3) by simp
      show "\<exists>cols. r = Inr cols \<and> (\<forall>c\<in>set cols. 0 \<le> c \<and> c < m)"
      proof (cases "pix < view")
        case False
        with 1(2) a show ?thesis by auto
      next
        case True
        show ?thesis
        proof (cases "\<not> wrap \<and> m - 1 \<le> coord")
          case True
          with 1(2) \<open>pix < view\<close> n a' show ?thesis by auto
        next
          case False
          with 1(2) \<open>pix < view\<close> n assms(3)
          have "f wrap n ts view (pix + ts) ((coord + 1) mod m) (acc @ [coord]) = Some r"
            by (auto split: if_splits)
          from 1(1)[OF this] n c' a' show ?thesis by blast
        qed
      qed
    qed
  qed
  with assms show ?thesis by blast
qed

lemma tll_returns:
  assumes "1 \<le> ts" "m \<noteq> 0"
  shows "\<exists>cols. tile_list_loop wrap (Some m) ts view pix coord acc = Some (Inr cols)"
proof (induction "nat (view - pix)" arbitrary: pix coord acc rule: less_induct)
  case less
  show ?case
  proof (cases "pix < view")
    case False
    then show ?thesis by (simp add: tll_exit)
  next
    case True
    show ?thesis
    proof (cases "\<not> wrap \<and> m - 1 \<le> coord")
      case True
      then show ?thesis using \<open>pix < view\<close> by (simp add: tll_break)
    next
      case False
      then have w: "wrap \<or> coord < m - 1" by auto
      have "nat (view - (pix + ts)) < nat (view - pix)" using True assms(1) by simp
      from less[OF this, of "(coord + 1) mod m" "acc @ [coord]"]
      show ?thesis using tll_step[OF True assms(2) w, of ts acc] by simp
    qed
  qed
qed

lemma tll_bounded_returns:
  assumes "1 \<le> m" "0 \<le> coord" "coord < m"
  shows "\<exists>cols. tile_list_loop False (Some m) ts view pix coord acc = Some (Inr cols)"
  using assms(2,3)
proof (induction "nat (m - 1 - coord)" arbitrary: pix coord acc rule: less_induct)
  case less
  show ?case
  proof (cases "pix < view")
    case False
    then show ?thesis by (simp add: tll_exit)
  next
    case True
    show ?thesis
    proof (cases "m - 1 \<le> coord")
      case True
      then show ?thesis using \<open>pix < view\<close> by (simp add: tll_break)
    next
      case False
      then have w: "False \<or> coord < m - 1" by simp
      have m0: "m \<noteq> 0" using assms(1) by simp
      have nx: "(coord + 1) mod m = coord + 1" using False less.prems by simp
      have "nat (m - 1 - (coord + 1)) < nat (m - 1 - coord)" using False by simp
      from less.hyps[OF this, of "pix + ts" "acc @ [coord]"] False less.prems
      show ?thesis using tll_step[OF True m0 w, of ts acc] nx by simp
    qed
  qed
qed

lemma tll_valid_returns:
  assumes "n = Some m" "1 \<le> m" "0 \<le> coord" "coord < m"
  shows "(\<forall>r. tile_list_loop wrap n ts view pix coord [] = Some r \<longrightarrow>
            (\<exists>cols. r = Inr cols \<and> (\<forall>c\<in>set cols. 0 \<le> c \<and> c < m))) \<and>
         (1 \<le> ts \<or> \<not> wrap \<longrightarrow>
            (\<exists>cols. tile_list_loop wrap n ts view pix coord [] = Some (Inr cols) \<and>
               (\<forall>c\<in>set cols. 0 \<le> c \<and> c < m)))"
proof -
  have v: "\<exists>cols. r = Inr cols \<and> (\<forall>c\<in>set cols. 0 \<le> c \<and> c < m)"
    if "tile_list_loop wrap n ts view pix coord [] = Some r" for r
    using tll_valid[OF that assms] by simp
  have t: "\<exists>cols. tile_list_loop wrap n ts view pix coord [] = Some (Inr cols)"
    if "1 \<le> ts \<or> \<not> wrap"
  proof (cases "1 \<le> ts")
    case True
    from tll_returns[OF True, of m wrap view pix coord "[]"] assms show ?thesis by simp
  next
    case False
    with that have "\<not> wrap" by simp
    with tll_bounded_returns[OF assms(2-4), of ts view pix "[]"] assms(1) show ?thesis by simp
  qed
  show ?thesis using v t by blast
qed

text \<open>
  Claim C10. When the tile count of X is at least one and the key tile column is at least
  zero and below it, the loop of \<^verbatim>\<open>paintEvent\<close> raises nothing, and every column of
  the list it returns is at least zero and below the tile count, whether the source wraps
  or not; and the loop does return a list when the tile width of the source is at least
  one or the source does not wrap in X. The same holds for the rows.
\<close>

theorem tile_lists_valid:
  "(num_tiles_x w = Some mx \<and> 1 \<le> mx \<and> 0 \<le> key_tile_left w \<and> key_tile_left w < mx \<longrightarrow>
      (\<forall>r. col_list w = Some r \<longrightarrow>
         (\<exists>cols. r = Inr cols \<and> (\<forall>c\<in>set cols. 0 \<le> c \<and> c < mx))) \<and>
      (1 \<le> src_tile_size_x (tile_src w) \<or> \<not> wrap_x (tile_src w) \<longrightarrow>
         (\<exists>cols. col_list w = Some (Inr cols) \<and> (\<forall>c\<in>set cols. 0 \<le> c \<and> c < mx)))) \<and>
   (num_tiles_y w = Some my \<and> 1 \<le> my \<and> 0 \<le> key_tile_top w \<and> key_tile_top w < my \<longrightarrow>
      (\<forall>r. row_list w = Some r \<longrightarrow>
         (\<exists>rows. r = Inr rows \<and> (\<forall>c\<in>set rows. 0 \<le> c \<and> c < my))) \<and>
      (1 \<le> src_tile_size_y (tile_src w) \<or> \<not> wrap_y (tile_src w) \<longrightarrow>
         (\<exists>rows. row_list w = Some (Inr rows) \<and> (\<forall>c\<in>set rows. 0 \<le> c \<and> c < my))))"
proof (rule conjI; rule impI)
  assume "num_tiles_x w = Some mx \<and> 1 \<le> mx \<and> 0 \<le> key_tile_left w \<and> key_tile_left w < mx"
  then have h: "num_tiles_x w = Some mx" "1 \<le> mx" "0 \<le> key_tile_left w" "key_tile_left w < mx"
    by simp_all
  show "(\<forall>r. col_list w = Some r \<longrightarrow>
           (\<exists>cols. r = Inr cols \<and> (\<forall>c\<in>set cols. 0 \<le> c \<and> c < mx))) \<and>
        (1 \<le> src_tile_size_x (tile_src w) \<or> \<not> wrap_x (tile_src w) \<longrightarrow>
           (\<exists>cols. col_list w = Some (Inr cols) \<and> (\<forall>c\<in>set cols. 0 \<le> c \<and> c < mx)))"
    unfolding col_list_def by (rule tll_valid_returns[OF h])
next
  assume "num_tiles_y w = Some my \<and> 1 \<le> my \<and> 0 \<le> key_tile_top w \<and> key_tile_top w < my"
  then have h: "num_tiles_y w = Some my" "1 \<le> my" "0 \<le> key_tile_top w" "key_tile_top w < my"
    by simp_all
  show "(\<forall>r. row_list w = Some r \<longrightarrow>
           (\<exists>rows. r = Inr rows \<and> (\<forall>c\<in>set rows. 0 \<le> c \<and> c < my))) \<and>
        (1 \<le> src_tile_size_y (tile_src w) \<or> \<not> wrap_y (tile_src w) \<longrightarrow>
           (\<exists>rows. row_list w = Some (Inr rows) \<and> (\<forall>c\<in>set rows. 0 \<le> c \<and> c < my)))"
    unfolding row_list_def by (rule tll_valid_returns[OF h])
qed

theorem tile_lists_valid_witness:
  "num_tiles_x (resizeEvent 600 400 (grid_widget wrapping_source)) = Some 4 \<and>
   num_tiles_y (resizeEvent 600 400 (grid_widget wrapping_source)) = Some 4 \<and>
   col_list (resizeEvent 600 400 (grid_widget wrapping_source)) = Some (Inr [0, 1, 2]) \<and>
   row_list (resizeEvent 600 400 (grid_widget wrapping_source)) = Some (Inr [0, 1]) \<and>
   (\<exists>cols. col_list (resizeEvent 600 400 (grid_widget wrapping_source)) = Some (Inr cols) \<and>
      (\<forall>c\<in>set cols. 0 \<le> c \<and> c < 4)) \<and>
   (\<exists>rows. row_list (resizeEvent 600 400 (grid_widget wrapping_source)) = Some (Inr rows) \<and>
      (\<forall>c\<in>set rows. 0 \<le> c \<and> c < 4))"
proof -
  have f: "num_tiles_x (resizeEvent 600 400 (grid_widget wrapping_source)) = Some 4"
    "num_tiles_y (resizeEvent 600 400 (grid_widget wrapping_source)) = Some 4"
    "key_tile_left (resizeEvent 600 400 (grid_widget wrapping_source)) = 0"
    "key_tile_top (resizeEvent 600 400 (grid_widget wrapping_source)) = 0"
    "src_tile_size_x (tile_src (resizeEvent 600 400 (grid_widget wrapping_source))) = 256"
    "src_tile_size_y (tile_src (resizeEvent 600 400 (grid_widget wrapping_source))) = 256"
    by (simp_all add: resizeEvent_def grid_widget_fields wrapping_source_def)
  have l: "col_list (resizeEvent 600 400 (grid_widget wrapping_source)) = Some (Inr [0, 1, 2])"
    "row_list (resizeEvent 600 400 (grid_widget wrapping_source)) = Some (Inr [0, 1])"
    by (simp_all add: col_list_def row_list_def resizeEvent_def grid_widget_fields
        wrapping_source_def tll_step tll_exit)
  from tile_lists_valid[of "resizeEvent 600 400 (grid_widget wrapping_source)" 4 4] f l
  show ?thesis by simp
qed

end
